theory Spec2Isabelle
  imports Main "HOL-Library.Sublist"
begin

section \<open>Data model\<close>

text \<open>
  The tables of the store, as the Prisma migrations and the handlers use them. Timestamps
  (\<open>new Date()\<close>, \<open>CURRENT_TIMESTAMP\<close>) are natural numbers (milliseconds), credits are
  integers (the column is \<open>INTEGER\<close> and carries no lower bound). The \<open>id\<close>, \<open>userId\<close>,
  \<open>createdAt\<close> and \<open>updatedAt\<close> columns occur in several tables; each record gives them a
  name of its own.
\<close>

datatype Role = admin | approver | member | lead | junior

datatype RuleAction = AUTO_REJECT | AUTO_ACCEPT

datatype ApprovalStatus = pending | approved | rejected

record User =
  userId :: string
  username :: string
  email :: "string option"
  role :: Role
  credits :: int

record ApiKey =
  keyId :: string
  key :: string
  keyUserId :: string
  lastUsed :: "nat option"

record RegexRule =
  ruleId :: string
  pattern :: string
  action :: RuleAction
  exampleMatch :: "string option"
  ruleCreatedAt :: nat
  ruleUpdatedAt :: nat

text \<open>
  Modelled from the spec: the \<open>approvalCount\<close> column of ApprovalRequest (default 0). The
  schema file is not among the sources and the migration that creates the table has no
  such column; the README's schema section and the spec's data model list it. No handler
  reads or writes it.
\<close>

record ApprovalRequest =
  requestId :: string
  requestUserId :: string
  commandText :: string
  status :: ApprovalStatus
  approvalCount :: nat
  requestCreatedAt :: nat
  requestUpdatedAt :: nat
  reviewedAt :: "nat option"
  reviewedBy :: "string option"

record AuditTrail =
  auditId :: string
  auditUserId :: string
  auditCommandText :: string
  creditsDeducted :: int
  creditsBefore :: int
  creditsAfter :: int
  auditCreatedAt :: nat

record Store =
  users :: "User list"
  apiKeys :: "ApiKey list"
  regexRules :: "RegexRule list"
  approvalRequests :: "ApprovalRequest list"
  auditTrails :: "AuditTrail list"

section \<open>Responses\<close>

text \<open>\<open>res.status(n).json(body)\<close>: a status code and a JSON value.\<close>

datatype json =
    JNull
  | JBool bool
  | JNum int
  | JStr string
  | JArr "json list"
  | JObj "(string \<times> json) list"

type_synonym Response = "nat \<times> json"

definition status_str :: "ApprovalStatus \<Rightarrow> string" where
  "status_str st = (case st of pending \<Rightarrow> ''pending'' | approved \<Rightarrow> ''approved''
     | rejected \<Rightarrow> ''rejected'')"

definition action_str :: "RuleAction \<Rightarrow> string" where
  "action_str a = (case a of AUTO_REJECT \<Rightarrow> ''AUTO_REJECT'' | AUTO_ACCEPT \<Rightarrow> ''AUTO_ACCEPT'')"

definition role_str :: "Role \<Rightarrow> string" where
  "role_str r = (case r of admin \<Rightarrow> ''admin'' | approver \<Rightarrow> ''approver''
     | member \<Rightarrow> ''member'' | lead \<Rightarrow> ''lead'' | junior \<Rightarrow> ''junior'')"

definition json_opt :: "('a \<Rightarrow> json) \<Rightarrow> 'a option \<Rightarrow> json" where
  "json_opt f x = (case x of None \<Rightarrow> JNull | Some v \<Rightarrow> f v)"

definition json_time :: "nat \<Rightarrow> json" where
  "json_time t = JNum (int t)"

definition request_json :: "ApprovalRequest \<Rightarrow> json" where
  "request_json r = JObj
     [(''id'', JStr (requestId r)),
      (''userId'', JStr (requestUserId r)),
      (''commandText'', JStr (commandText r)),
      (''status'', JStr (status_str (status r))),
      (''approvalCount'', JNum (int (approvalCount r))),
      (''createdAt'', json_time (requestCreatedAt r)),
      (''updatedAt'', json_time (requestUpdatedAt r)),
      (''reviewedAt'', json_opt json_time (reviewedAt r)),
      (''reviewedBy'', json_opt JStr (reviewedBy r))]"

section \<open>Store operations\<close>

text \<open>
  A failing store call throws; the handlers only look at the error's message. A
  \<open>$transaction([op1, op2])\<close> runs its operations in order and commits all of them or
  none: on an error the caller goes on with the store it started from.
\<close>

datatype PrismaError = UniqueConstraintFailed string | RecordNotFound | InvalidArgument string

definition message :: "PrismaError \<Rightarrow> string" where
  "message e = (case e of
      UniqueConstraintFailed field \<Rightarrow> ''Unique constraint failed on the fields: ('' @ field @ '')''
    | RecordNotFound \<Rightarrow> ''Record to update does not exist''
    | InvalidArgument arg \<Rightarrow> ''Invalid value provided for argument '' @ arg)"

definition str_includes :: "string \<Rightarrow> string \<Rightarrow> bool" where
  "str_includes s sub = sublist sub s"

definition transaction2 ::
  "(Store \<Rightarrow> PrismaError + ('a \<times> Store)) \<Rightarrow> (Store \<Rightarrow> PrismaError + ('b \<times> Store))
    \<Rightarrow> Store \<Rightarrow> PrismaError + (('a \<times> 'b) \<times> Store)" where
  "transaction2 op1 op2 s =
     (case op1 s of
        Inl e \<Rightarrow> Inl e
      | Inr (a, s1) \<Rightarrow>
          (case op2 s1 of
             Inl e \<Rightarrow> Inl e
           | Inr (b, s2) \<Rightarrow> Inr ((a, b), s2)))"

definition approvalRequest_findUnique :: "Store \<Rightarrow> string \<Rightarrow> ApprovalRequest option" where
  "approvalRequest_findUnique s rid = find (\<lambda>r. requestId r = rid) (approvalRequests s)"

definition approvalRequest_update ::
  "string \<Rightarrow> (ApprovalRequest \<Rightarrow> ApprovalRequest) \<Rightarrow> nat \<Rightarrow> Store
    \<Rightarrow> PrismaError + (ApprovalRequest \<times> Store)" where
  "approvalRequest_update rid f now s =
     (case approvalRequest_findUnique s rid of
        None \<Rightarrow> Inl RecordNotFound
      | Some r \<Rightarrow>
          let r' = (f r)\<lparr>requestUpdatedAt := now\<rparr>
          in Inr (r', s\<lparr>approvalRequests :=
                map (\<lambda>x. if requestId x = rid then r' else x) (approvalRequests s)\<rparr>))"

definition regexRule_findUnique_pattern :: "Store \<Rightarrow> string \<Rightarrow> RegexRule option" where
  "regexRule_findUnique_pattern s p = find (\<lambda>r. pattern r = p) (regexRules s)"

text \<open>
  \<open>regexRule.create\<close>: the unique index on \<open>pattern\<close> rejects a second rule with the same
  pattern string; otherwise the row is appended with a fresh id and the current time.
\<close>

definition regexRule_create ::
  "string \<Rightarrow> RuleAction \<Rightarrow> string option \<Rightarrow> string \<Rightarrow> nat \<Rightarrow> Store
    \<Rightarrow> PrismaError + (RegexRule \<times> Store)" where
  "regexRule_create p a ex newId now s =
     (if \<exists>r \<in> set (regexRules s). pattern r = p then Inl (UniqueConstraintFailed ''pattern'')
      else
        let rule = \<lparr>ruleId = newId, pattern = p, action = a, exampleMatch = ex,
                    ruleCreatedAt = now, ruleUpdatedAt = now\<rparr>
        in Inr (rule, s\<lparr>regexRules := regexRules s @ [rule]\<rparr>))"

section \<open>Approval requests: approve and reject\<close>

definition backslash :: char where
  "backslash = CHR 0x5C"

text \<open>The character class \<open>[.*+?^${}()|[\]\\]\<close> of the escaping \<open>replace\<close>.\<close>

definition special :: "char \<Rightarrow> bool" where
  "special c = (c \<in> set ''.*+?^${}()|[]'' \<or> c = backslash)"

text \<open>\<open>commandText.replace(/[.*+?^${}()|[\]\\]/g, '\\$&')\<close>: every special character gets a
  backslash in front, every other character stays.\<close>

fun escapeCommand :: "string \<Rightarrow> string" where
  "escapeCommand [] = []"
| "escapeCommand (c # cs) =
     (if special c then backslash # c # escapeCommand cs else c # escapeCommand cs)"

definition approve_pattern :: "string \<Rightarrow> string" where
  "approve_pattern text = ''^'' @ escapeCommand text @ ''$''"

definition approve :: "Store \<Rightarrow> User \<Rightarrow> string \<Rightarrow> nat \<Rightarrow> string \<Rightarrow> Response \<times> Store" where
  "approve s approverUser rid now newId =
     (case approvalRequest_findUnique s rid of
        None \<Rightarrow> ((404, JObj [(''error'', JStr ''Approval request not found'')]), s)
      | Some approvalRequest \<Rightarrow>
          if status approvalRequest \<noteq> pending then
            ((400, JObj [(''error'',
                JStr (''Request is already '' @ status_str (status approvalRequest)))]), s)
          else
            let pat = approve_pattern (commandText approvalRequest) in
            (case transaction2
                    (approvalRequest_update rid
                       (\<lambda>r. r\<lparr>status := approved, reviewedAt := Some now,
                               reviewedBy := Some (userId approverUser)\<rparr>) now)
                    (regexRule_create pat AUTO_ACCEPT (Some (commandText approvalRequest))
                       newId now) s of
               Inr ((updatedRequest, regexRule), s') \<Rightarrow>
                 ((200, JObj
                    [(''message'', JStr ''Approval request approved and regex rule created''),
                     (''request'', request_json updatedRequest),
                     (''rule'', JObj
                        [(''id'', JStr (ruleId regexRule)),
                         (''pattern'', JStr (pattern regexRule)),
                         (''action'', JStr (action_str (action regexRule)))])]), s')
             | Inl error \<Rightarrow>
                 if str_includes (message error) ''Unique constraint'' then
                   ((409, JObj [(''error'',
                       JStr ''A regex rule for this command already exists'')]), s)
                 else
                   ((500, JObj [(''error'', JStr ''Internal server error''),
                                (''message'', JStr (message error))]), s)))"

definition reject :: "Store \<Rightarrow> User \<Rightarrow> string \<Rightarrow> nat \<Rightarrow> Response \<times> Store" where
  "reject s approverUser rid now =
     (case approvalRequest_findUnique s rid of
        None \<Rightarrow> ((404, JObj [(''error'', JStr ''Approval request not found'')]), s)
      | Some approvalRequest \<Rightarrow>
          if status approvalRequest \<noteq> pending then
            ((400, JObj [(''error'',
                JStr (''Request is already '' @ status_str (status approvalRequest)))]), s)
          else
            (case approvalRequest_update rid
                    (\<lambda>r. r\<lparr>status := rejected, reviewedAt := Some now,
                            reviewedBy := Some (userId approverUser)\<rparr>) now s of
               Inr (updatedRequest, s') \<Rightarrow>
                 ((200, JObj [(''message'', JStr ''Approval request rejected''),
                              (''request'', request_json updatedRequest)]), s')
             | Inl error \<Rightarrow>
                 ((500, JObj [(''error'', JStr ''Internal server error''),
                              (''message'', JStr (message error))]), s)))"

section \<open>Request bodies\<close>

text \<open>
  \<open>req.body\<close> is a JSON object; a field that is absent reads as \<open>undefined\<close>, which the
  checks below treat like \<open>null\<close>. The guard \<open>!x || typeof x !== "string"\<close> lets exactly
  the non-empty strings through: the empty string is falsy, every other value is not a
  string.
\<close>

definition field :: "(string \<times> json) list \<Rightarrow> string \<Rightarrow> json" where
  "field body name = (case map_of body name of None \<Rightarrow> JNull | Some v \<Rightarrow> v)"

definition falsy :: "json \<Rightarrow> bool" where
  "falsy v = (case v of JNull \<Rightarrow> True | JBool b \<Rightarrow> \<not> b | JNum n \<Rightarrow> n = 0
     | JStr t \<Rightarrow> t = [] | JArr _ \<Rightarrow> False | JObj _ \<Rightarrow> False)"

definition required_string :: "json \<Rightarrow> string option" where
  "required_string v =
     (if falsy v then None else (case v of JStr t \<Rightarrow> Some t | _ \<Rightarrow> None))"

section \<open>Printing numbers\<close>

definition digit_char :: "nat \<Rightarrow> char" where
  "digit_char d = char_of (48 + d)"

function string_of_nat :: "nat \<Rightarrow> string" where
  "string_of_nat n =
     (if n < 10 then [digit_char n] else string_of_nat (n div 10) @ [digit_char (n mod 10)])"
  by pat_completeness auto
termination
  by (relation "measure (\<lambda>n. n)") auto

declare string_of_nat.simps [simp del]

definition string_of_int :: "int \<Rightarrow> string" where
  "string_of_int i =
     (if i < 0 then CHR ''-'' # string_of_nat (nat (- i)) else string_of_nat (nat i))"

section \<open>Commands: rule matching, credit check, charge and audit\<close>

text \<open>
  \<open>new RegExp(pattern)\<close> either throws or gives an object of which the handlers use only
  \<open>test\<close>. The regular-expression engine of the runtime is a parameter of every function
  that compiles a pattern: \<open>RegExp p = None\<close> when the constructor throws, and
  \<open>RegExp p = Some t\<close> with \<open>t text\<close> the result of \<open>regex.test(text)\<close> otherwise.
\<close>

type_synonym Engine = "string \<Rightarrow> (string \<Rightarrow> bool) option"

definition orderBy_asc :: "('a \<Rightarrow> nat) \<Rightarrow> 'a list \<Rightarrow> 'a list" where
  "orderBy_asc f xs = sort_key f xs"

definition orderBy_desc :: "('a \<Rightarrow> nat) \<Rightarrow> 'a list \<Rightarrow> 'a list" where
  "orderBy_desc f xs = rev (sort_key f xs)"

definition regexRule_findMany_asc :: "Store \<Rightarrow> RegexRule list" where
  "regexRule_findMany_asc s = orderBy_asc ruleCreatedAt (regexRules s)"

text \<open>The loop over the rules: the first rule whose pattern compiles and tests true; a
  pattern that throws is skipped (\<open>continue\<close>).\<close>

fun match_rules :: "Engine \<Rightarrow> RegexRule list \<Rightarrow> string \<Rightarrow> RegexRule option" where
  "match_rules RegExp [] text = None"
| "match_rules RegExp (rule # rest) text =
     (case RegExp (pattern rule) of
        None \<Rightarrow> match_rules RegExp rest text
      | Some regex \<Rightarrow> if regex text then Some rule else match_rules RegExp rest text)"

definition evaluate :: "Engine \<Rightarrow> Store \<Rightarrow> string \<Rightarrow> RegexRule option" where
  "evaluate RegExp s text = match_rules RegExp (regexRule_findMany_asc s) text"

definition rule_matches :: "Engine \<Rightarrow> string \<Rightarrow> RegexRule \<Rightarrow> bool" where
  "rule_matches RegExp text rule =
     (case RegExp (pattern rule) of None \<Rightarrow> False | Some regex \<Rightarrow> regex text)"

definition user_update_decrement ::
  "string \<Rightarrow> int \<Rightarrow> Store \<Rightarrow> PrismaError + (int \<times> Store)" where
  "user_update_decrement uid n s =
     (case find (\<lambda>u. userId u = uid) (users s) of
        None \<Rightarrow> Inl RecordNotFound
      | Some u \<Rightarrow>
          Inr (credits u - n,
               s\<lparr>users := map (\<lambda>x. if userId x = uid then x\<lparr>credits := credits x - n\<rparr> else x)
                              (users s)\<rparr>))"

definition auditTrail_create ::
  "string \<Rightarrow> string \<Rightarrow> int \<Rightarrow> int \<Rightarrow> int \<Rightarrow> string \<Rightarrow> nat \<Rightarrow> Store
    \<Rightarrow> PrismaError + (AuditTrail \<times> Store)" where
  "auditTrail_create uid text deducted cBefore cAfter newId now s =
     (let entry = \<lparr>auditId = newId, auditUserId = uid, auditCommandText = text,
                    creditsDeducted = deducted, creditsBefore = cBefore, creditsAfter = cAfter,
                    auditCreatedAt = now\<rparr>
      in Inr (entry, s\<lparr>auditTrails := auditTrails s @ [entry]\<rparr>))"

definition matched_rule_json :: "RegexRule \<Rightarrow> json" where
  "matched_rule_json r =
     JObj [(''pattern'', JStr (pattern r)), (''action'', JStr (action_str (action r)))]"

definition insufficient_credits :: "User \<Rightarrow> Response" where
  "insufficient_credits user =
     (403, JObj
        [(''error'', JStr ''Insufficient credits''),
         (''message'', JStr (''You need at least 10 credits to submit a command. '' @
             ''Your current balance: '' @ string_of_int (credits user))),
         (''current_balance'', JNum (credits user))])"

definition post_command ::
  "Engine \<Rightarrow> Store \<Rightarrow> User \<Rightarrow> (string \<times> json) list \<Rightarrow> nat \<Rightarrow> string \<Rightarrow> Response \<times> Store" where
  "post_command RegExp s user body now newId =
     (case required_string (field body ''command_text'') of
        None \<Rightarrow>
          ((400, JObj [(''error'', JStr ''command_text is required and must be a string'')]), s)
      | Some command_text \<Rightarrow>
          (case match_rules RegExp (regexRule_findMany_asc s) command_text of
             None \<Rightarrow>
               ((400, JObj
                   [(''status'', JStr ''rejected''),
                    (''command'', JStr command_text),
                    (''error'', JStr ''Command does not match any allowed pattern''),
                    (''message'',
                       JStr ''The command does not match any regex rule in the system'')]), s)
           | Some matchedRule \<Rightarrow>
               if action matchedRule = AUTO_REJECT then
                 ((403, JObj
                     [(''status'', JStr ''rejected''),
                      (''command'', JStr command_text),
                      (''error'', JStr ''Command rejected by security rule''),
                      (''message'', JStr (''Command matches a rejected pattern: '' @
                          pattern matchedRule)),
                      (''matched_rule'', matched_rule_json matchedRule)]), s)
               else if credits user < 10 then (insufficient_credits user, s)
               else
                 let creditsBefore = credits user; creditsDeducted = 10 in
                 (case transaction2
                         (user_update_decrement (userId user) creditsDeducted)
                         (auditTrail_create (userId user) command_text creditsDeducted
                            creditsBefore (creditsBefore - creditsDeducted) newId now) s of
                    Inr ((updatedCredits, auditTrail), s') \<Rightarrow>
                      ((200, JObj
                          [(''status'', JStr ''executed''),
                           (''command'', JStr command_text),
                           (''message'', JStr ''Command logged successfully''),
                           (''new_balance'', JNum updatedCredits),
                           (''credits_deducted'', JNum creditsDeducted),
                           (''audit_trail_id'', JStr (auditId auditTrail)),
                           (''matched_rule'', matched_rule_json matchedRule)]), s')
                  | Inl error \<Rightarrow>
                      ((500, JObj [(''error'', JStr ''Internal server error''),
                                   (''message'', JStr (message error))]), s))))"

section \<open>Rules: adding a rule\<close>

definition isValidRegex :: "Engine \<Rightarrow> string \<Rightarrow> bool" where
  "isValidRegex RegExp p = (case RegExp p of None \<Rightarrow> False | Some _ \<Rightarrow> True)"

definition rule_action_of :: "string \<Rightarrow> RuleAction" where
  "rule_action_of a = (if a = ''AUTO_REJECT'' then AUTO_REJECT else AUTO_ACCEPT)"

definition rule_json :: "RegexRule \<Rightarrow> json" where
  "rule_json r = JObj
     [(''id'', JStr (ruleId r)),
      (''pattern'', JStr (pattern r)),
      (''action'', JStr (action_str (action r))),
      (''exampleMatch'', json_opt JStr (exampleMatch r)),
      (''createdAt'', json_time (ruleCreatedAt r))]"

text \<open>\<open>exampleMatch || null\<close> handed to the store: a falsy value becomes null, a string is
  kept, and any other value is refused by the store's argument validation.\<close>

definition example_arg :: "json \<Rightarrow> PrismaError + string option" where
  "example_arg v =
     (if falsy v then Inr None
      else (case v of JStr t \<Rightarrow> Inr (Some t) | _ \<Rightarrow> Inl (InvalidArgument ''exampleMatch'')))"

definition add_regex_rule ::
  "Engine \<Rightarrow> Store \<Rightarrow> (string \<times> json) list \<Rightarrow> nat \<Rightarrow> string \<Rightarrow> Response \<times> Store" where
  "add_regex_rule RegExp s body now newId =
     (case required_string (field body ''pattern'') of
        None \<Rightarrow> ((400, JObj [(''error'', JStr ''pattern is required and must be a string'')]), s)
      | Some pat \<Rightarrow>
          (case required_string (field body ''action'') of
             None \<Rightarrow>
               ((400, JObj [(''error'', JStr ''action is required and must be a string'')]), s)
           | Some act \<Rightarrow>
               if act \<noteq> ''AUTO_REJECT'' \<and> act \<noteq> ''AUTO_ACCEPT'' then
                 ((400, JObj [(''error'',
                     JStr (''action must be either 'AUTO_REJECT' or 'AUTO_ACCEPT'' @ [CHR 0x27]))]), s)
               else if \<not> isValidRegex RegExp pat then
                 ((400, JObj
                     [(''error'', JStr ''Invalid regex pattern''),
                      (''message'',
                         JStr ''The provided pattern is not a valid regular expression'')]), s)
               else
                 (case regexRule_findUnique_pattern s pat of
                    Some existingRule \<Rightarrow>
                      ((409, JObj
                          [(''error'', JStr ''Pattern already exists''),
                           (''message'', JStr ''A rule with this pattern already exists'')]), s)
                  | None \<Rightarrow>
                      (case (case example_arg (field body ''exampleMatch'') of
                               Inl e \<Rightarrow> Inl e
                             | Inr ex \<Rightarrow> regexRule_create pat (rule_action_of act) ex newId now s) of
                         Inr (regexRule, s') \<Rightarrow>
                           ((201, JObj [(''message'', JStr ''Regex rule added successfully''),
                                        (''rule'', rule_json regexRule)]), s')
                       | Inl error \<Rightarrow>
                           ((500, JObj [(''error'', JStr ''Internal server error''),
                                        (''message'', JStr (message error))]), s)))))"

section \<open>Audit queries\<close>

text \<open>\<open>auditTrail.findMany\<close> with \<open>where: { userId }\<close>, \<open>orderBy: { createdAt: "desc" }\<close>,
  \<open>take: 100\<close>.\<close>

definition command_history :: "Store \<Rightarrow> string \<Rightarrow> AuditTrail list" where
  "command_history s uid =
     take 100 (orderBy_desc auditCreatedAt (filter (\<lambda>e. auditUserId e = uid) (auditTrails s)))"

text \<open>\<open>auditTrail.findMany\<close> with \<open>include: { user: { select: { id, username, role } } }\<close>,
  \<open>orderBy: { createdAt: "desc" }\<close>, \<open>take: 500\<close>. The included user is the row of the
  users table that the entry's \<open>userId\<close> refers to.\<close>

definition include_user :: "Store \<Rightarrow> AuditTrail \<Rightarrow> AuditTrail \<times> User option" where
  "include_user s e = (e, find (\<lambda>u. userId u = auditUserId e) (users s))"

definition audit_logs :: "Store \<Rightarrow> (AuditTrail \<times> User option) list" where
  "audit_logs s = map (include_user s) (take 500 (orderBy_desc auditCreatedAt (auditTrails s)))"

definition audit_fields :: "AuditTrail \<Rightarrow> (string \<times> json) list" where
  "audit_fields e =
     [(''id'', JStr (auditId e)),
      (''userId'', JStr (auditUserId e)),
      (''commandText'', JStr (auditCommandText e)),
      (''creditsDeducted'', JNum (creditsDeducted e)),
      (''creditsBefore'', JNum (creditsBefore e)),
      (''creditsAfter'', JNum (creditsAfter e)),
      (''createdAt'', json_time (auditCreatedAt e))]"

definition user_select_json :: "User \<Rightarrow> json" where
  "user_select_json u = JObj
     [(''id'', JStr (userId u)), (''username'', JStr (username u)),
      (''role'', JStr (role_str (role u)))]"

definition get_command_history :: "Store \<Rightarrow> User \<Rightarrow> Response" where
  "get_command_history s user =
     (let history = command_history s (userId user)
      in (200, JObj [(''history'', JArr (map (\<lambda>e. JObj (audit_fields e)) history)),
                     (''count'', JNum (int (length history)))]))"

definition get_audit_logs :: "Store \<Rightarrow> Response" where
  "get_audit_logs s =
     (let logs = audit_logs s
      in (200, JObj
           [(''logs'', JArr (map (\<lambda>(e, u). JObj (audit_fields e @
                                     [(''user'', json_opt user_select_json u)])) logs)),
            (''count'', JNum (int (length logs)))]))"

section \<open>Authentication and concurrent requests\<close>

text \<open>
  \<open>authenticateApiKey\<close>: the key of the \<open>X-API-Key\<close> header is looked up together with its
  user, \<open>lastUsed\<close> is written, and the user row as read at that moment becomes \<open>req.user\<close>.
\<close>

definition authenticateApiKey :: "Store \<Rightarrow> string option \<Rightarrow> nat \<Rightarrow> Response + (User \<times> Store)" where
  "authenticateApiKey s header now =
     (case (case header of None \<Rightarrow> None | Some k \<Rightarrow> if k = [] then None else Some k) of
        None \<Rightarrow>
          Inl (401, JObj [(''error'',
                 JStr ''API key is required. Please provide it in the X-API-Key header.'')])
      | Some apiKey \<Rightarrow>
          (case find (\<lambda>r. key r = apiKey) (apiKeys s) of
             None \<Rightarrow> Inl (401, JObj [(''error'', JStr ''Invalid API key'')])
           | Some keyRecord \<Rightarrow>
               (case find (\<lambda>u. userId u = keyUserId keyRecord) (users s) of
                  None \<Rightarrow>
                    Inl (500, JObj [(''error'',
                           JStr ''Internal server error during authentication'')])
                | Some user \<Rightarrow>
                    Inr (user,
                         s\<lparr>apiKeys := map (\<lambda>r. if keyId r = keyId keyRecord
                                                  then r\<lparr>lastUsed := Some now\<rparr> else r)
                                            (apiKeys s)\<rparr>))))"

text \<open>
  Requests to \<open>POST /command\<close> that are in flight together. Every \<open>await\<close> of a handler
  lets another request run; the model keeps two of these points per request: after
  authentication (when \<open>req.user\<close> has been read) and after the response. A request is
  either still to be authenticated, authenticated and holding its copy of the user row, or
  answered. A schedule says which request takes its next step, with the clock and the id
  the store hands out at that step. The store calls inside one step, and the two writes of
  the transaction in particular, are never interleaved with another request.
\<close>

datatype Request =
    Arrived "string option" "(string \<times> json) list"
  | Authenticated User "(string \<times> json) list"
  | Responded Response

definition step ::
  "Engine \<Rightarrow> nat \<times> nat \<times> string \<Rightarrow> Store \<times> Request list \<Rightarrow> Store \<times> Request list" where
  "step RegExp sched cfg =
     (case sched of (i, now, newId) \<Rightarrow>
      (case cfg of (s, reqs) \<Rightarrow>
       if i < length reqs then
         (case reqs ! i of
            Arrived header body \<Rightarrow>
              (case authenticateApiKey s header now of
                 Inl resp \<Rightarrow> (s, reqs[i := Responded resp])
               | Inr (user, s') \<Rightarrow> (s', reqs[i := Authenticated user body]))
          | Authenticated user body \<Rightarrow>
              (case post_command RegExp s user body now newId of
                 (resp, s') \<Rightarrow> (s', reqs[i := Responded resp]))
          | Responded resp \<Rightarrow> (s, reqs))
       else (s, reqs)))"

fun run ::
  "Engine \<Rightarrow> (nat \<times> nat \<times> string) list \<Rightarrow> Store \<times> Request list \<Rightarrow> Store \<times> Request list" where
  "run RegExp [] cfg = cfg"
| "run RegExp (sched # rest) cfg = run RegExp rest (step RegExp sched cfg)"

section \<open>A fragment of the pattern language\<close>

text \<open>
  The patterns that \<open>approve\<close> builds use only a small part of the ECMAScript pattern
  language: the assertions \<open>^\<close> and \<open>$\<close>, pattern characters, and a backslash in front of a
  syntax character. This section gives that part, with \<open>.\<close>, the quantifiers \<open>*\<close>, \<open>+\<close>, \<open>?\<close>
  and \<open>|\<close>, its meaning under \<open>new RegExp(p).test(text)\<close> (no flags: \<open>^\<close> and \<open>$\<close> are
  the two ends of the input, the match may start anywhere). Groups, character classes,
  braces, lazy quantifiers and the other escapes are outside the fragment: for them the
  compiler answers \<open>NotModelled\<close> and nothing is said about the runtime.
\<close>

definition SyntaxCharacter :: "char \<Rightarrow> bool" where
  "SyntaxCharacter c = (c \<in> set ''^$.*+?()[]{}|'' \<or> c = backslash)"

datatype Atom = PatternCharacter char | Dot

datatype Quantifier = Star | Plus | Opt

datatype Token =
    TAtom Atom
  | TQuantifier Quantifier
  | TBar
  | TCaret
  | TDollar
  | TUnsupported

datatype Term = AssertStart | AssertEnd | Single Atom | Quantified Atom Quantifier

datatype CompileResult = Compiled "Term list list" | SyntaxError | NotModelled

definition token_of :: "char \<Rightarrow> Token" where
  "token_of c =
     (if c = CHR ''.'' then TAtom Dot
      else if c = CHR ''*'' then TQuantifier Star
      else if c = CHR ''+'' then TQuantifier Plus
      else if c = CHR ''?'' then TQuantifier Opt
      else if c = CHR ''|'' then TBar
      else if c = CHR ''^'' then TCaret
      else if c = CHR ''$'' then TDollar
      else if SyntaxCharacter c then TUnsupported
      else TAtom (PatternCharacter c))"

text \<open>A backslash takes the next character with it: in front of a syntax character it
  makes that character literal; a pattern that ends in a lone backslash is a syntax
  error (the result \<open>None\<close>).\<close>

fun tokens :: "string \<Rightarrow> Token list option" where
  "tokens [] = Some []"
| "tokens (c # cs) =
     (if c = backslash then
        (case cs of
           [] \<Rightarrow> None
         | d # ds \<Rightarrow>
             (case tokens ds of
                None \<Rightarrow> None
              | Some ts \<Rightarrow>
                  Some ((if SyntaxCharacter d then TAtom (PatternCharacter d)
                         else TUnsupported) # ts)))
      else (case tokens cs of None \<Rightarrow> None | Some ts \<Rightarrow> Some (token_of c # ts)))"

text \<open>Terms are read left to right, \<open>cur\<close> holding the current alternative and \<open>alts\<close>
  the finished ones, both reversed. A quantifier with nothing to repeat is a syntax
  error.\<close>

fun parse_terms :: "Token list \<Rightarrow> Term list \<Rightarrow> Term list list \<Rightarrow> CompileResult" where
  "parse_terms [] cur alts = Compiled (rev (rev cur # alts))"
| "parse_terms (TBar # ts) cur alts = parse_terms ts [] (rev cur # alts)"
| "parse_terms (TCaret # ts) cur alts = parse_terms ts (AssertStart # cur) alts"
| "parse_terms (TDollar # ts) cur alts = parse_terms ts (AssertEnd # cur) alts"
| "parse_terms (TQuantifier q # ts) cur alts = SyntaxError"
| "parse_terms (TUnsupported # ts) cur alts = NotModelled"
| "parse_terms (TAtom a # TQuantifier q # TQuantifier q' # ts) cur alts =
     (if q' = Opt then NotModelled else SyntaxError)"
| "parse_terms (TAtom a # TQuantifier q # ts) cur alts =
     parse_terms ts (Quantified a q # cur) alts"
| "parse_terms (TAtom a # ts) cur alts = parse_terms ts (Single a # cur) alts"

definition compile :: "string \<Rightarrow> CompileResult" where
  "compile p = (case tokens p of None \<Rightarrow> SyntaxError | Some ts \<Rightarrow> parse_terms ts [] [])"

definition LineTerminator :: "char \<Rightarrow> bool" where
  "LineTerminator c = (c = CHR 0x0A \<or> c = CHR 0x0D)"

fun match_atom :: "Atom \<Rightarrow> char \<Rightarrow> bool" where
  "match_atom (PatternCharacter d) c = (c = d)"
| "match_atom Dot c = (\<not> LineTerminator c)"

text \<open>\<open>match_terms ts at_start rest\<close>: the terms match some prefix of \<open>rest\<close>, where
  \<open>at_start\<close> says that no input lies before \<open>rest\<close>.\<close>

fun match_terms :: "Term list \<Rightarrow> bool \<Rightarrow> string \<Rightarrow> bool" where
  "match_terms [] at_start rest = True"
| "match_terms (AssertStart # ts) at_start rest = (at_start \<and> match_terms ts at_start rest)"
| "match_terms (AssertEnd # ts) at_start rest = (rest = [] \<and> match_terms ts at_start rest)"
| "match_terms (Single a # ts) at_start [] = False"
| "match_terms (Single a # ts) at_start (c # cs) = (match_atom a c \<and> match_terms ts False cs)"
| "match_terms (Quantified a Opt # ts) at_start [] = match_terms ts at_start []"
| "match_terms (Quantified a Opt # ts) at_start (c # cs) =
     ((match_atom a c \<and> match_terms ts False cs) \<or> match_terms ts at_start (c # cs))"
| "match_terms (Quantified a Star # ts) at_start [] = match_terms ts at_start []"
| "match_terms (Quantified a Star # ts) at_start (c # cs) =
     ((match_atom a c \<and> match_terms (Quantified a Star # ts) False cs)
      \<or> match_terms ts at_start (c # cs))"
| "match_terms (Quantified a Plus # ts) at_start [] = False"
| "match_terms (Quantified a Plus # ts) at_start (c # cs) =
     (match_atom a c \<and> match_terms (Quantified a Star # ts) False cs)"

definition match_disjunction :: "Term list list \<Rightarrow> bool \<Rightarrow> string \<Rightarrow> bool" where
  "match_disjunction alts at_start rest = list_ex (\<lambda>alt. match_terms alt at_start rest) alts"

fun search :: "Term list list \<Rightarrow> bool \<Rightarrow> string \<Rightarrow> bool" where
  "search alts at_start [] = match_disjunction alts at_start []"
| "search alts at_start (c # cs) =
     (match_disjunction alts at_start (c # cs) \<or> search alts False cs)"

definition test :: "Term list list \<Rightarrow> string \<Rightarrow> bool" where
  "test alts text = search alts True text"

text \<open>The fragment as an engine for running the handlers on patterns of the fragment: a
  pattern compiles when the fragment compiles it.\<close>

definition RegExp_fragment :: Engine where
  "RegExp_fragment p = (case compile p of Compiled alts \<Rightarrow> Some (test alts) | _ \<Rightarrow> None)"

section \<open>What approve writes\<close>

text \<open>The request row after the update of approve, and the rule row that approve creates
  for a command text: the two writes of its transaction.\<close>

definition approved_by :: "ApprovalRequest \<Rightarrow> User \<Rightarrow> nat \<Rightarrow> ApprovalRequest" where
  "approved_by r a now = r\<lparr>status := approved, reviewedAt := Some now,
     reviewedBy := Some (userId a), requestUpdatedAt := now\<rparr>"

definition exact_rule :: "string \<Rightarrow> string \<Rightarrow> nat \<Rightarrow> RegexRule" where
  "exact_rule cmd newId now = \<lparr>ruleId = newId, pattern = approve_pattern cmd,
     action = AUTO_ACCEPT, exampleMatch = Some cmd, ruleCreatedAt = now, ruleUpdatedAt = now\<rparr>"

text \<open>A command text read as a pattern that stands for itself: one literal atom per
  character.\<close>

definition literal_tokens :: "string \<Rightarrow> Token list" where
  "literal_tokens cmd = map (\<lambda>c. TAtom (PatternCharacter c)) cmd"

definition literal_terms :: "string \<Rightarrow> Term list" where
  "literal_terms cmd = map (\<lambda>c. Single (PatternCharacter c)) cmd"

section \<open>Concrete stores\<close>

text \<open>A small store on which the handlers are run: one requester, one approver, four
  rules stored out of creation order (one of them with a pattern that does not compile),
  and one pending approval request.\<close>

definition ex_user :: User where
  "ex_user = \<lparr>userId = ''u1'', username = ''alice'', email = Some ''alice@example.com'',
     role = member, credits = 5\<rparr>"

definition ex_approver :: User where
  "ex_approver = \<lparr>userId = ''u2'', username = ''bob'', email = Some ''bob@example.com'',
     role = approver, credits = 100\<rparr>"

definition ex_rule_any_l :: RegexRule where
  "ex_rule_any_l = \<lparr>ruleId = ''r4'', pattern = ''l.'', action = AUTO_REJECT,
     exampleMatch = None, ruleCreatedAt = 40, ruleUpdatedAt = 40\<rparr>"

definition ex_rule_ls :: RegexRule where
  "ex_rule_ls = \<lparr>ruleId = ''r2'', pattern = ''^ls'', action = AUTO_ACCEPT,
     exampleMatch = Some ''ls -la'', ruleCreatedAt = 20, ruleUpdatedAt = 20\<rparr>"

definition ex_rule_broken :: RegexRule where
  "ex_rule_broken = \<lparr>ruleId = ''r1'', pattern = ''*ls'', action = AUTO_REJECT,
     exampleMatch = None, ruleCreatedAt = 10, ruleUpdatedAt = 10\<rparr>"

definition ex_rule_rm :: RegexRule where
  "ex_rule_rm = \<lparr>ruleId = ''r3'', pattern = ''rm +-rf'', action = AUTO_REJECT,
     exampleMatch = Some ''rm -rf /'', ruleCreatedAt = 30, ruleUpdatedAt = 30\<rparr>"

definition ex_request :: ApprovalRequest where
  "ex_request = \<lparr>requestId = ''q1'', requestUserId = ''u1'', commandText = ''cat a.txt'',
     status = pending, approvalCount = 0, requestCreatedAt = 50, requestUpdatedAt = 50,
     reviewedAt = None, reviewedBy = None\<rparr>"

definition ex_store :: Store where
  "ex_store = \<lparr>users = [ex_user, ex_approver],
     apiKeys = [\<lparr>keyId = ''k1'', key = ''sk_alice'', keyUserId = ''u1'', lastUsed = None\<rparr>],
     regexRules = [ex_rule_any_l, ex_rule_ls, ex_rule_broken, ex_rule_rm],
     approvalRequests = [ex_request],
     auditTrails = []\<rparr>"

text \<open>The same store after the request was approved, and with a rule already holding the
  pattern that approving the request would create.\<close>

definition ex_store_approved :: Store where
  "ex_store_approved = ex_store\<lparr>approvalRequests := [ex_request\<lparr>status := approved\<rparr>]\<rparr>"

definition ex_store_taken :: Store where
  "ex_store_taken = ex_store\<lparr>regexRules :=
     [\<lparr>ruleId = ''r5'', pattern = approve_pattern ''cat a.txt'', action = AUTO_REJECT,
       exampleMatch = None, ruleCreatedAt = 45, ruleUpdatedAt = 45\<rparr>]\<rparr>"

text \<open>The store with a balance of 15 for the requester, and two requests of that user to
  \<open>POST /command\<close> with a schedule that authenticates both before either is handled, and
  one that runs them one after the other.\<close>

definition ex_store_15 :: Store where
  "ex_store_15 = ex_store\<lparr>users := [ex_user\<lparr>credits := 15\<rparr>, ex_approver]\<rparr>"

definition ex_requests :: "Request list" where
  "ex_requests =
     [Arrived (Some ''sk_alice'') [(''command_text'', JStr ''ls -la'')],
      Arrived (Some ''sk_alice'') [(''command_text'', JStr ''ls /tmp'')]]"

definition ex_schedule_interleaved :: "(nat \<times> nat \<times> string) list" where
  "ex_schedule_interleaved = [(0, 61, ''a1''), (1, 62, ''a2''), (0, 63, ''a3''), (1, 64, ''a4'')]"

definition ex_schedule_sequential :: "(nat \<times> nat \<times> string) list" where
  "ex_schedule_sequential = [(0, 61, ''a1''), (0, 62, ''a2''), (1, 63, ''a3''), (1, 64, ''a4'')]"

definition response_codes :: "Request list \<Rightarrow> nat option list" where
  "response_codes reqs =
     map (\<lambda>r. case r of Responded resp \<Rightarrow> Some (fst resp) | _ \<Rightarrow> None) reqs"

text \<open>A store with three audit entries, stored out of time order, of two users.\<close>

definition ex_audit_1 :: AuditTrail where
  "ex_audit_1 = \<lparr>auditId = ''a1'', auditUserId = ''u1'', auditCommandText = ''ls'',
     creditsDeducted = 10, creditsBefore = 100, creditsAfter = 90, auditCreatedAt = 100\<rparr>"

definition ex_audit_2 :: AuditTrail where
  "ex_audit_2 = \<lparr>auditId = ''a2'', auditUserId = ''u2'', auditCommandText = ''ls /'',
     creditsDeducted = 10, creditsBefore = 50, creditsAfter = 40, auditCreatedAt = 300\<rparr>"

definition ex_audit_3 :: AuditTrail where
  "ex_audit_3 = \<lparr>auditId = ''a3'', auditUserId = ''u1'', auditCommandText = ''ls -la'',
     creditsDeducted = 10, creditsBefore = 90, creditsAfter = 80, auditCreatedAt = 200\<rparr>"

definition ex_audit_store :: Store where
  "ex_audit_store = ex_store\<lparr>auditTrails := [ex_audit_1, ex_audit_2, ex_audit_3]\<rparr>"

section \<open>Facts about the concrete stores and the store operations\<close>

lemmas ex_defs = ex_store_def ex_user_def ex_approver_def ex_rule_any_l_def ex_rule_ls_def
  ex_rule_broken_def ex_rule_rm_def ex_request_def

lemma unique_constraint_message:
  "str_includes (message (UniqueConstraintFailed f)) ''Unique constraint''"
  unfolding str_includes_def message_def
  by (rule prefix_imp_sublist) simp

lemma approvalRequest_update_regexRules:
  "approvalRequest_update rid f now s = Inr (r', s1) \<Longrightarrow> regexRules s1 = regexRules s"
  by (auto simp: approvalRequest_update_def Let_def split: option.splits)

lemma evaluate_ex_store_ls: "evaluate RegExp_fragment ex_store ''ls -la'' = Some ex_rule_ls"
  by (simp add: evaluate_def regexRule_findMany_asc_def orderBy_asc_def ex_defs
      RegExp_fragment_def compile_def token_of_def SyntaxCharacter_def backslash_def
      test_def match_disjunction_def)

lemma evaluate_ex_store_whoami: "evaluate RegExp_fragment ex_store ''whoami'' = None"
  by (simp add: evaluate_def regexRule_findMany_asc_def orderBy_asc_def ex_defs
      RegExp_fragment_def compile_def token_of_def SyntaxCharacter_def backslash_def
      test_def match_disjunction_def)

section \<open>Rule matching\<close>

lemma match_rules_find:
  "match_rules RegExp rules text = find (rule_matches RegExp text) rules"
  by (induction rules) (auto simp: rule_matches_def split: option.splits)

lemma find_sorted_least:
  "sorted (map f xs) \<Longrightarrow> find P xs = Some x \<Longrightarrow> y \<in> set xs \<Longrightarrow> P y \<Longrightarrow> f x \<le> (f y :: nat)"
  by (induction xs) (auto split: if_splits)

lemma find_Some_member: "find P xs = Some x \<Longrightarrow> x \<in> set xs \<and> P x"
  by (induction xs) (auto split: if_splits)

lemma match_rules_skip_invalid:
  "match_rules RegExp (filter (\<lambda>r. RegExp (pattern r) \<noteq> None) rules) text
     = match_rules RegExp rules text"
  by (induction rules) (auto split: option.splits)

lemma evaluate_find:
  "evaluate RegExp s text
     = find (rule_matches RegExp text) (orderBy_asc ruleCreatedAt (regexRules s))"
  by (simp add: evaluate_def regexRule_findMany_asc_def match_rules_find)

lemma evaluate_None:
  "(evaluate RegExp s text = None) = (\<forall>r \<in> set (regexRules s). \<not> rule_matches RegExp text r)"
  by (auto simp: evaluate_find orderBy_asc_def find_None_iff)

lemma evaluate_Some:
  assumes "evaluate RegExp s text = Some r"
  shows "r \<in> set (regexRules s)" and "rule_matches RegExp text r"
    and "\<And>r'. r' \<in> set (regexRules s) \<Longrightarrow> rule_matches RegExp text r'
           \<Longrightarrow> ruleCreatedAt r \<le> ruleCreatedAt r'"
proof -
  let ?xs = "sort_key ruleCreatedAt (regexRules s)"
  have f: "find (rule_matches RegExp text) ?xs = Some r"
    using assms by (simp add: evaluate_find orderBy_asc_def)
  from find_Some_member [OF f] show "r \<in> set (regexRules s)" and "rule_matches RegExp text r"
    by simp_all
  fix r' assume "r' \<in> set (regexRules s)" and m: "rule_matches RegExp text r'"
  then have "r' \<in> set ?xs" by simp
  moreover have "sorted (map ruleCreatedAt ?xs)" by simp
  ultimately show "ruleCreatedAt r \<le> ruleCreatedAt r'"
    using f m by (rule_tac find_sorted_least [where P = "rule_matches RegExp text" and xs = "?xs"])
qed

lemma evaluate_skip_invalid:
  "evaluate RegExp s text =
     evaluate RegExp (s\<lparr>regexRules := filter (\<lambda>r. RegExp (pattern r) \<noteq> None) (regexRules s)\<rparr>) text"
proof -
  let ?P = "\<lambda>r. RegExp (pattern r) \<noteq> None"
  have "evaluate RegExp (s\<lparr>regexRules := filter ?P (regexRules s)\<rparr>) text
          = match_rules RegExp (filter ?P (sort_key ruleCreatedAt (regexRules s))) text"
    by (simp add: evaluate_def regexRule_findMany_asc_def orderBy_asc_def filter_sort
        del: not_None_eq)
  also have "\<dots> = match_rules RegExp (sort_key ruleCreatedAt (regexRules s)) text"
    by (rule match_rules_skip_invalid)
  finally show ?thesis
    by (simp add: evaluate_def regexRule_findMany_asc_def orderBy_asc_def)
qed

text \<open>
  C4. For a rule set and a command text, evaluate is a function of the two (and of the
  pattern engine), and its result is the first rule, in the scan of the rules sorted by
  ascending creation time, whose pattern compiles and tests true on the text. So: the
  result is none exactly when no rule of the set matches; a rule that is returned belongs
  to the set, matches, and no matching rule of the set has an earlier creation time; and
  the rules whose pattern does not compile are passed over, the result being the same as
  on the rule set without them.
\<close>

theorem evaluate_first_match:
  "evaluate RegExp s text
     = find (rule_matches RegExp text) (orderBy_asc ruleCreatedAt (regexRules s))
   \<and> sorted (map ruleCreatedAt (orderBy_asc ruleCreatedAt (regexRules s)))
   \<and> set (orderBy_asc ruleCreatedAt (regexRules s)) = set (regexRules s)
   \<and> ((evaluate RegExp s text = None)
        = (\<forall>r \<in> set (regexRules s). \<not> rule_matches RegExp text r))
   \<and> (\<forall>r. evaluate RegExp s text = Some r \<longrightarrow>
          r \<in> set (regexRules s) \<and> rule_matches RegExp text r \<and>
          (\<forall>r' \<in> set (regexRules s). rule_matches RegExp text r'
              \<longrightarrow> ruleCreatedAt r \<le> ruleCreatedAt r'))
   \<and> evaluate RegExp s text =
       evaluate RegExp
         (s\<lparr>regexRules := filter (\<lambda>r. RegExp (pattern r) \<noteq> None) (regexRules s)\<rparr>) text"
proof (intro conjI allI impI ballI)
  show "evaluate RegExp s text
     = find (rule_matches RegExp text) (orderBy_asc ruleCreatedAt (regexRules s))"
    by (rule evaluate_find)
  show "sorted (map ruleCreatedAt (orderBy_asc ruleCreatedAt (regexRules s)))"
    by (simp add: orderBy_asc_def)
  show "set (orderBy_asc ruleCreatedAt (regexRules s)) = set (regexRules s)"
    by (simp add: orderBy_asc_def)
  show "(evaluate RegExp s text = None)
        = (\<forall>r \<in> set (regexRules s). \<not> rule_matches RegExp text r)"
    by (rule evaluate_None)
  show "evaluate RegExp s text =
       evaluate RegExp
         (s\<lparr>regexRules := filter (\<lambda>r. RegExp (pattern r) \<noteq> None) (regexRules s)\<rparr>) text"
    by (rule evaluate_skip_invalid)
next
  fix r assume "evaluate RegExp s text = Some r"
  then show "r \<in> set (regexRules s)" by (rule evaluate_Some(1))
next
  fix r assume "evaluate RegExp s text = Some r"
  then show "rule_matches RegExp text r" by (rule evaluate_Some(2))
next
  fix r r' assume "evaluate RegExp s text = Some r" "r' \<in> set (regexRules s)"
    "rule_matches RegExp text r'"
  then show "ruleCreatedAt r \<le> ruleCreatedAt r'" by (rule evaluate_Some(3))
qed

theorem evaluate_first_match_witness:
  "evaluate RegExp_fragment ex_store ''ls -la'' = Some ex_rule_ls
   \<and> RegExp_fragment (pattern ex_rule_broken) = None
   \<and> ruleCreatedAt ex_rule_broken < ruleCreatedAt ex_rule_ls
   \<and> rule_matches RegExp_fragment ''ls -la'' ex_rule_any_l
   \<and> ruleCreatedAt ex_rule_ls \<le> ruleCreatedAt ex_rule_any_l
   \<and> evaluate RegExp_fragment ex_store ''whoami'' = None"
proof -
  have m: "rule_matches RegExp_fragment ''ls -la'' ex_rule_any_l"
    by (simp add: rule_matches_def ex_rule_any_l_def RegExp_fragment_def compile_def
        token_of_def SyntaxCharacter_def backslash_def test_def match_disjunction_def
        LineTerminator_def)
  have i: "ex_rule_any_l \<in> set (regexRules ex_store)"
    by (simp add: ex_store_def)
  have b: "RegExp_fragment (pattern ex_rule_broken) = None"
    by (simp add: ex_rule_broken_def RegExp_fragment_def compile_def token_of_def
        SyntaxCharacter_def backslash_def)
  have "ruleCreatedAt ex_rule_ls \<le> ruleCreatedAt ex_rule_any_l"
    using evaluate_first_match [of RegExp_fragment ex_store "''ls -la''"]
      evaluate_ex_store_ls m i by blast
  then show ?thesis
    using evaluate_ex_store_ls evaluate_ex_store_whoami m b
    by (simp add: ex_rule_broken_def ex_rule_ls_def)
qed

section \<open>The credit check\<close>

text \<open>
  C5. When the balance of the user is below 10 and the command (a non-empty string in
  \<open>command_text\<close>, which is what passes the input check that comes first) matches a rule
  with action AUTO_ACCEPT, the handler answers 403 with the error "Insufficient credits"
  and returns the store as it was: the balance is unchanged and no audit entry is written.
\<close>

theorem insufficient_credits_no_charge:
  assumes "credits user < 10"
    and "required_string (field body ''command_text'') = Some text"
    and "evaluate RegExp s text = Some rule"
    and "action rule = AUTO_ACCEPT"
  shows "post_command RegExp s user body now newId = (insufficient_credits user, s)
       \<and> fst (insufficient_credits user) = 403"
  using assms by (simp add: post_command_def evaluate_def insufficient_credits_def)

theorem insufficient_credits_no_charge_witness:
  "credits ex_user = 5
   \<and> post_command RegExp_fragment ex_store ex_user [(''command_text'', JStr ''ls -la'')] 60 ''a1''
       = (insufficient_credits ex_user, ex_store)
   \<and> fst (insufficient_credits ex_user) = 403
   \<and> auditTrails ex_store = []"
proof -
  have c: "credits ex_user < 10"
    by (simp add: ex_user_def)
  have b: "required_string (field [(''command_text'', JStr ''ls -la'')] ''command_text'') = Some ''ls -la''"
    by (simp add: required_string_def field_def falsy_def)
  have a: "action ex_rule_ls = AUTO_ACCEPT"
    by (simp add: ex_rule_ls_def)
  show ?thesis
    using insufficient_credits_no_charge [OF c b evaluate_ex_store_ls a, of 60 "''a1''"]
    by (simp add: ex_user_def ex_store_def)
qed

section \<open>Two charges in flight\<close>

text \<open>One request on its own: either the response is not 200 and the store is untouched,
  or it is 200, the balance read at authentication was at least 10, exactly one audit
  entry was appended, with after = before - 10, and the user's balance went down by 10.\<close>

lemma post_command_charge_audit:
  assumes "post_command RegExp s user body now newId = (resp, s')"
  shows "(fst resp \<noteq> 200 \<and> s' = s)
       \<or> (fst resp = 200 \<and> 10 \<le> credits user
          \<and> auditTrails s' = auditTrails s @
               [\<lparr>auditId = newId, auditUserId = userId user,
                 auditCommandText = the (required_string (field body ''command_text'')),
                 creditsDeducted = 10, creditsBefore = credits user,
                 creditsAfter = credits user - 10, auditCreatedAt = now\<rparr>]
          \<and> users s' = map (\<lambda>x. if userId x = userId user then x\<lparr>credits := credits x - 10\<rparr> else x)
                          (users s))"
  using assms
  by (auto simp: post_command_def insufficient_credits_def Let_def transaction2_def
      user_update_decrement_def auditTrail_create_def
      split: option.splits if_splits sum.splits prod.splits)

text \<open>
  C8, at a balance of 15 and two requests of the same user, each matching an AUTO_ACCEPT
  rule. When both requests are authenticated before either is handled, both pass the
  credit check on the balance 15 they read, both are answered 200, the balance ends at -5
  and both audit entries record 15 before and 5 after. Run one after the other, the
  second request is refused with 403 and the balance ends at 5.
\<close>

theorem concurrent_charges_overdraw:
  "map credits (users ex_store_15) = [15, 100]
   \<and> response_codes (snd (run RegExp_fragment ex_schedule_interleaved (ex_store_15, ex_requests)))
       = [Some 200, Some 200]
   \<and> map credits (users (fst (run RegExp_fragment ex_schedule_interleaved (ex_store_15, ex_requests))))
       = [- 5, 100]
   \<and> map (\<lambda>e. (creditsBefore e, creditsDeducted e, creditsAfter e))
        (auditTrails (fst (run RegExp_fragment ex_schedule_interleaved (ex_store_15, ex_requests))))
       = [(15, 10, 5), (15, 10, 5)]
   \<and> response_codes (snd (run RegExp_fragment ex_schedule_sequential (ex_store_15, ex_requests)))
       = [Some 200, Some 403]
   \<and> map credits (users (fst (run RegExp_fragment ex_schedule_sequential (ex_store_15, ex_requests))))
       = [5, 100]"
  by code_simp

section \<open>Audit queries: history and audit log\<close>

lemma take_desc_length: "length (take n (orderBy_desc f xs)) = min n (length xs)"
  by (simp add: orderBy_desc_def min.commute)

lemma take_desc_subset: "x \<in> set (take n (orderBy_desc f xs)) \<Longrightarrow> x \<in> set xs"
  using set_take_subset [of n "orderBy_desc f xs"] by (auto simp: orderBy_desc_def)

lemma orderBy_desc_sorted: "sorted_wrt (\<lambda>a b. f b \<le> f a) (orderBy_desc f xs)"
proof -
  have "sorted (map f (sort_key f xs))" by simp
  then have "sorted_wrt (\<lambda>a b. f a \<le> f b) (sort_key f xs)"
    by (simp add: sorted_map)
  then show ?thesis
    by (simp add: orderBy_desc_def sorted_wrt_rev)
qed

lemma take_desc_sorted: "sorted_wrt (\<lambda>a b. f b \<le> f a) (take n (orderBy_desc f xs))"
  using orderBy_desc_sorted [of f xs] by (rule sorted_wrt_take)

lemma take_desc_most_recent:
  assumes "y \<in> set xs" and "y \<notin> set (take n (orderBy_desc f xs))"
    and "x \<in> set (take n (orderBy_desc f xs))"
  shows "f y \<le> f x"
proof -
  let ?zs = "orderBy_desc f xs"
  have "sorted_wrt (\<lambda>a b. f b \<le> f a) (take n ?zs @ drop n ?zs)"
    using orderBy_desc_sorted [of f xs] by simp
  then have *: "\<forall>a \<in> set (take n ?zs). \<forall>b \<in> set (drop n ?zs). f b \<le> f a"
    unfolding sorted_wrt_append by blast
  have "y \<in> set ?zs" using assms(1) by (simp add: orderBy_desc_def)
  then have "y \<in> set (take n ?zs) \<union> set (drop n ?zs)"
    by (metis append_take_drop_id set_append)
  then have "y \<in> set (drop n ?zs)" using assms(2) by blast
  with * assms(3) show ?thesis by blast
qed

lemma audit_logs_fst:
  "map fst (audit_logs s) = take 500 (orderBy_desc auditCreatedAt (auditTrails s))"
  by (simp add: audit_logs_def include_user_def comp_def)

lemma command_history_member:
  "e \<in> set (command_history s uid) \<Longrightarrow> e \<in> set (auditTrails s) \<and> auditUserId e = uid"
  unfolding command_history_def by (drule take_desc_subset) simp

lemma audit_logs_user:
  "(e, u) \<in> set (audit_logs s) \<Longrightarrow> u = find (\<lambda>u. userId u = auditUserId e) (users s)"
  by (auto simp: audit_logs_def include_user_def)

lemma find_owner:
  "\<exists>u \<in> set xs. P u \<Longrightarrow> \<exists>owner \<in> set xs. find P xs = Some owner \<and> P owner"
  by (induction xs) auto

text \<open>
  C9. The command history of a user has at most 100 entries, all of them audit entries of
  that user, ordered newest first, and an entry of the user that is left out is no newer
  than any entry returned. The audit log has at most 500 entries, ordered newest first,
  an entry left out is no newer than any entry returned, and each entry comes with the
  user row that its user id refers to (present whenever every audit entry refers to a
  user of the store, as the foreign key demands).
\<close>

theorem audit_queries_most_recent:
  "length (command_history s uid) \<le> 100
   \<and> length (command_history s uid)
       = min 100 (length (filter (\<lambda>e. auditUserId e = uid) (auditTrails s)))
   \<and> (\<forall>e \<in> set (command_history s uid). e \<in> set (auditTrails s) \<and> auditUserId e = uid)
   \<and> sorted_wrt (\<lambda>a b. auditCreatedAt b \<le> auditCreatedAt a) (command_history s uid)
   \<and> (\<forall>e \<in> set (auditTrails s).
         auditUserId e = uid \<and> e \<notin> set (command_history s uid) \<longrightarrow>
         (\<forall>x \<in> set (command_history s uid). auditCreatedAt e \<le> auditCreatedAt x))
   \<and> length (audit_logs s) \<le> 500
   \<and> length (audit_logs s) = min 500 (length (auditTrails s))
   \<and> (\<forall>e \<in> set (map fst (audit_logs s)). e \<in> set (auditTrails s))
   \<and> sorted_wrt (\<lambda>a b. auditCreatedAt b \<le> auditCreatedAt a) (map fst (audit_logs s))
   \<and> (\<forall>e \<in> set (auditTrails s).
         e \<notin> set (map fst (audit_logs s)) \<longrightarrow>
         (\<forall>x \<in> set (map fst (audit_logs s)). auditCreatedAt e \<le> auditCreatedAt x))
   \<and> (\<forall>(e, u) \<in> set (audit_logs s). u = find (\<lambda>u. userId u = auditUserId e) (users s))
   \<and> ((\<forall>e \<in> set (auditTrails s). \<exists>u \<in> set (users s). userId u = auditUserId e) \<longrightarrow>
        (\<forall>(e, u) \<in> set (audit_logs s).
           \<exists>owner \<in> set (users s). u = Some owner \<and> userId owner = auditUserId e))"
proof -
  let ?mine = "filter (\<lambda>e. auditUserId e = uid) (auditTrails s)"
  have h1: "length (command_history s uid) = min 100 (length ?mine)"
    unfolding command_history_def by (rule take_desc_length)
  have h2: "\<forall>e \<in> set (command_history s uid). e \<in> set (auditTrails s) \<and> auditUserId e = uid"
    using command_history_member by blast
  have h3: "sorted_wrt (\<lambda>a b. auditCreatedAt b \<le> auditCreatedAt a) (command_history s uid)"
    unfolding command_history_def by (rule take_desc_sorted)
  have h4: "\<forall>e \<in> set (auditTrails s).
         auditUserId e = uid \<and> e \<notin> set (command_history s uid) \<longrightarrow>
         (\<forall>x \<in> set (command_history s uid). auditCreatedAt e \<le> auditCreatedAt x)"
  proof (intro ballI impI)
    fix e x
    assume "e \<in> set (auditTrails s)"
      and "auditUserId e = uid \<and> e \<notin> set (command_history s uid)"
      and "x \<in> set (command_history s uid)"
    then show "auditCreatedAt e \<le> auditCreatedAt x"
      unfolding command_history_def
      by (intro take_desc_most_recent [where xs = ?mine and n = 100]) simp_all
  qed
  have l1: "length (audit_logs s) = min 500 (length (auditTrails s))"
    using take_desc_length [of 500 auditCreatedAt "auditTrails s"]
    by (simp add: audit_logs_def)
  have l2: "\<forall>e \<in> set (map fst (audit_logs s)). e \<in> set (auditTrails s)"
    unfolding audit_logs_fst by (intro ballI) (rule take_desc_subset)
  have l3: "sorted_wrt (\<lambda>a b. auditCreatedAt b \<le> auditCreatedAt a) (map fst (audit_logs s))"
    unfolding audit_logs_fst by (rule take_desc_sorted)
  have l4: "\<forall>e \<in> set (auditTrails s).
         e \<notin> set (map fst (audit_logs s)) \<longrightarrow>
         (\<forall>x \<in> set (map fst (audit_logs s)). auditCreatedAt e \<le> auditCreatedAt x)"
    unfolding audit_logs_fst by (intro ballI impI) (rule take_desc_most_recent)
  have l5: "\<forall>(e, u) \<in> set (audit_logs s). u = find (\<lambda>u. userId u = auditUserId e) (users s)"
    using audit_logs_user by blast
  have l6: "(\<forall>e \<in> set (auditTrails s). \<exists>u \<in> set (users s). userId u = auditUserId e) \<longrightarrow>
        (\<forall>(e, u) \<in> set (audit_logs s).
           \<exists>owner \<in> set (users s). u = Some owner \<and> userId owner = auditUserId e)"
  proof (intro impI ballI, clarify)
    fix e u
    assume fk: "\<forall>e \<in> set (auditTrails s). \<exists>u \<in> set (users s). userId u = auditUserId e"
      and m: "(e, u) \<in> set (audit_logs s)"
    from m have "e \<in> set (map fst (audit_logs s))" by force
    with l2 fk have "\<exists>u \<in> set (users s). userId u = auditUserId e" by blast
    then have "\<exists>owner \<in> set (users s).
        find (\<lambda>u. userId u = auditUserId e) (users s) = Some owner \<and> userId owner = auditUserId e"
      by (rule find_owner)
    with audit_logs_user [OF m]
    show "\<exists>owner \<in> set (users s). u = Some owner \<and> userId owner = auditUserId e"
      by simp
  qed
  from h1 have h0: "length (command_history s uid) \<le> 100" by simp
  from l1 have l0: "length (audit_logs s) \<le> 500" by simp
  from h0 h1 h2 h3 h4 l0 l1 l2 l3 l4 l5 l6 show ?thesis
    by (intro conjI)
qed

theorem audit_queries_most_recent_witness:
  "command_history ex_audit_store ''u1'' = [ex_audit_3, ex_audit_1]
   \<and> audit_logs ex_audit_store
       = [(ex_audit_2, Some ex_approver), (ex_audit_3, Some ex_user), (ex_audit_1, Some ex_user)]
   \<and> length (command_history ex_audit_store ''u1'') \<le> 100
   \<and> length (audit_logs ex_audit_store) \<le> 500
   \<and> sorted_wrt (\<lambda>a b. auditCreatedAt b \<le> auditCreatedAt a) (command_history ex_audit_store ''u1'')"
proof -
  have h: "command_history ex_audit_store ''u1'' = [ex_audit_3, ex_audit_1]"
    by (simp add: command_history_def orderBy_desc_def ex_audit_store_def ex_audit_1_def
        ex_audit_2_def ex_audit_3_def)
  have l: "audit_logs ex_audit_store
       = [(ex_audit_2, Some ex_approver), (ex_audit_3, Some ex_user), (ex_audit_1, Some ex_user)]"
    by (simp add: audit_logs_def include_user_def orderBy_desc_def ex_audit_store_def
        ex_audit_1_def ex_audit_2_def ex_audit_3_def ex_defs)
  show ?thesis
    using audit_queries_most_recent [of ex_audit_store "''u1''"] h l
    by simp
qed

section \<open>Adding a rule\<close>

lemma find_pattern_Some:
  "\<exists>r \<in> set (regexRules s). pattern r = p \<Longrightarrow> \<exists>r. regexRule_findUnique_pattern s p = Some r"
  unfolding regexRule_findUnique_pattern_def
  by (cases "find (\<lambda>r. pattern r = p) (regexRules s)") (auto simp: find_None_iff)

text \<open>
  C6. Adding a rule whose pattern string is equal to the pattern of a rule already in
  the set, whatever the actions of the two, fails with 409 and leaves the store
  unchanged; this is for a request that passes the input checks, which come first (a
  non-empty pattern that compiles and one of the two actions). Adding a rule whose pattern
  does not compile fails with 400 and leaves the store unchanged.
\<close>

theorem add_rule_conflict_or_invalid:
  "(required_string (field body ''pattern'') = Some pat
      \<and> required_string (field body ''action'') = Some act
      \<and> (act = ''AUTO_REJECT'' \<or> act = ''AUTO_ACCEPT'')
      \<and> RegExp pat \<noteq> None
      \<and> (\<exists>r \<in> set (regexRules s). pattern r = pat)
    \<longrightarrow> add_regex_rule RegExp s body now newId =
          ((409, JObj [(''error'', JStr ''Pattern already exists''),
                       (''message'', JStr ''A rule with this pattern already exists'')]), s))
   \<and> (field body ''pattern'' = JStr pat \<and> RegExp pat = None
    \<longrightarrow> fst (fst (add_regex_rule RegExp s body now newId)) = 400
        \<and> snd (add_regex_rule RegExp s body now newId) = s)"
proof (intro conjI impI)
  assume a: "required_string (field body ''pattern'') = Some pat
      \<and> required_string (field body ''action'') = Some act
      \<and> (act = ''AUTO_REJECT'' \<or> act = ''AUTO_ACCEPT'')
      \<and> RegExp pat \<noteq> None
      \<and> (\<exists>r \<in> set (regexRules s). pattern r = pat)"
  then obtain r where "regexRule_findUnique_pattern s pat = Some r"
    using find_pattern_Some by blast
  with a show "add_regex_rule RegExp s body now newId =
          ((409, JObj [(''error'', JStr ''Pattern already exists''),
                       (''message'', JStr ''A rule with this pattern already exists'')]), s)"
    by (auto simp: add_regex_rule_def isValidRegex_def)
next
  assume b: "field body ''pattern'' = JStr pat \<and> RegExp pat = None"
  then show "fst (fst (add_regex_rule RegExp s body now newId)) = 400"
    by (auto simp: add_regex_rule_def isValidRegex_def required_string_def falsy_def
        split: option.splits)
  from b show "snd (add_regex_rule RegExp s body now newId) = s"
    by (auto simp: add_regex_rule_def isValidRegex_def required_string_def falsy_def
        split: option.splits)
qed

theorem add_rule_conflict_or_invalid_witness:
  "action ex_rule_ls = AUTO_ACCEPT
   \<and> add_regex_rule RegExp_fragment ex_store
        [(''pattern'', JStr ''^ls''), (''action'', JStr ''AUTO_REJECT'')] 60 ''r9''
      = ((409, JObj [(''error'', JStr ''Pattern already exists''),
                     (''message'', JStr ''A rule with this pattern already exists'')]), ex_store)
   \<and> fst (fst (add_regex_rule RegExp_fragment ex_store
        [(''pattern'', JStr ''a**''), (''action'', JStr ''AUTO_ACCEPT'')] 60 ''r9'')) = 400
   \<and> snd (add_regex_rule RegExp_fragment ex_store
        [(''pattern'', JStr ''a**''), (''action'', JStr ''AUTO_ACCEPT'')] 60 ''r9'') = ex_store
   \<and> fst (fst (add_regex_rule RegExp_fragment ex_store
        [(''pattern'', JStr ''^LS''), (''action'', JStr ''AUTO_ACCEPT'')] 60 ''r9'')) = 201"
proof -
  let ?b1 = "[(''pattern'', JStr ''^ls''), (''action'', JStr ''AUTO_REJECT'')]"
  let ?b2 = "[(''pattern'', JStr ''a**''), (''action'', JStr ''AUTO_ACCEPT'')]"
  have h1: "required_string (field ?b1 ''pattern'') = Some ''^ls''
      \<and> required_string (field ?b1 ''action'') = Some ''AUTO_REJECT''
      \<and> (''AUTO_REJECT'' = ''AUTO_REJECT'' \<or> ''AUTO_REJECT'' = ''AUTO_ACCEPT'')
      \<and> RegExp_fragment ''^ls'' \<noteq> None
      \<and> (\<exists>r \<in> set (regexRules ex_store). pattern r = ''^ls'')"
    by (simp add: required_string_def field_def falsy_def RegExp_fragment_def compile_def
        token_of_def SyntaxCharacter_def backslash_def ex_defs)
  have h2: "field ?b2 ''pattern'' = JStr ''a**'' \<and> RegExp_fragment ''a**'' = None"
    by (simp add: field_def RegExp_fragment_def compile_def token_of_def SyntaxCharacter_def
        backslash_def)
  have a: "action ex_rule_ls = AUTO_ACCEPT"
    by (simp add: ex_rule_ls_def)
  have c: "fst (fst (add_regex_rule RegExp_fragment ex_store
        [(''pattern'', JStr ''^LS''), (''action'', JStr ''AUTO_ACCEPT'')] 60 ''r9'')) = 201"
    by (simp add: add_regex_rule_def required_string_def field_def falsy_def isValidRegex_def
        RegExp_fragment_def compile_def token_of_def SyntaxCharacter_def backslash_def
        regexRule_findUnique_pattern_def regexRule_create_def example_arg_def Let_def
        ex_defs)
  show ?thesis
    using c add_rule_conflict_or_invalid [where body = ?b1 and pat = "''^ls''"
        and act = "''AUTO_REJECT''" and RegExp = RegExp_fragment and s = ex_store
        and now = 60 and newId = "''r9''"]
      add_rule_conflict_or_invalid [where body = ?b2 and pat = "''a**''"
        and RegExp = RegExp_fragment and s = ex_store and now = 60 and newId = "''r9''"]
      h1 h2 a
    by blast
qed

section \<open>Approve on a pending request\<close>

text \<open>On a pending request whose pattern is not yet a rule, approve commits both writes
  and answers 200; on a request that is not pending it answers 400 and writes nothing.\<close>

lemma approve_pending_success:
  assumes "approvalRequest_findUnique s rid = Some r"
    and "status r = pending"
    and "\<forall>x \<in> set (regexRules s). pattern x \<noteq> approve_pattern (commandText r)"
  shows "approve s a rid now newId =
     ((200, JObj
        [(''message'', JStr ''Approval request approved and regex rule created''),
         (''request'', request_json (approved_by r a now)),
         (''rule'', JObj
            [(''id'', JStr newId),
             (''pattern'', JStr (approve_pattern (commandText r))),
             (''action'', JStr ''AUTO_ACCEPT'')])]),
      s\<lparr>approvalRequests :=
           map (\<lambda>x. if requestId x = rid then approved_by r a now else x) (approvalRequests s),
         regexRules := regexRules s @ [exact_rule (commandText r) newId now]\<rparr>)"
  using assms
  by (simp add: approve_def Let_def transaction2_def approvalRequest_update_def
      regexRule_create_def approved_by_def exact_rule_def action_str_def)






subsection \<open>One approval is enough\<close>

text \<open>
  C1, at a pending request with no votes. A single approve call answers 200 with the
  fields message, request and rule, sets the request to approved and adds the rule; the
  approval count stays 0, no count and no threshold is reported, and the request does not
  stay pending.
\<close>

theorem single_approve_approves:
  "status ex_request = pending \<and> approvalCount ex_request = 0
   \<and> fst (fst (approve ex_store ex_approver ''q1'' 60 ''r9'')) = 200
   \<and> map fst (case snd (fst (approve ex_store ex_approver ''q1'' 60 ''r9'')) of
                 JObj kvs \<Rightarrow> kvs | _ \<Rightarrow> []) = [''message'', ''request'', ''rule'']
   \<and> map status (approvalRequests (snd (approve ex_store ex_approver ''q1'' 60 ''r9'')))
       = [approved]
   \<and> map approvalCount (approvalRequests (snd (approve ex_store ex_approver ''q1'' 60 ''r9'')))
       = [0]
   \<and> regexRules (snd (approve ex_store ex_approver ''q1'' 60 ''r9''))
       = regexRules ex_store @ [exact_rule ''cat a.txt'' ''r9'' 60]"
proof -
  have f: "approvalRequest_findUnique ex_store ''q1'' = Some ex_request"
    by (simp add: approvalRequest_findUnique_def ex_defs)
  have p: "status ex_request = pending"
    by (simp add: ex_request_def)
  have e: "escapeCommand ''cat a.txt'' = ''cat a'' @ [backslash] @ ''.txt''"
    by (simp add: special_def backslash_def)
  have n: "\<forall>x \<in> set (regexRules ex_store). pattern x \<noteq> approve_pattern (commandText ex_request)"
    by (simp add: ex_defs approve_pattern_def e)
  show ?thesis
    by (simp add: approve_pending_success [OF f p n])
       (simp add: ex_defs approved_by_def)
qed

subsection \<open>A second approval by the same approver\<close>




section \<open>Approve and reject on a request that is no longer pending\<close>

text \<open>
  C3, as the code has it. When the request is found and its status is approved or
  rejected, approve and reject both answer with status code 400 (not 409) and the error
  text "Request is already " followed by the current status, and the store, the request
  included, is left as it was.
\<close>

theorem terminal_request_rejected_400:
  assumes "approvalRequest_findUnique s rid = Some r" and "status r \<noteq> pending"
  shows "approve s a rid now newId =
           ((400, JObj [(''error'', JStr (''Request is already '' @ status_str (status r)))]), s)
       \<and> reject s a rid now =
           ((400, JObj [(''error'', JStr (''Request is already '' @ status_str (status r)))]), s)"
  using assms by (simp add: approve_def reject_def)

theorem terminal_request_rejected_400_witness:
  "approve ex_store_approved ex_approver ''q1'' 60 ''r9'' =
     ((400, JObj [(''error'', JStr ''Request is already approved'')]), ex_store_approved)
   \<and> reject ex_store_approved ex_approver ''q1'' 60 =
     ((400, JObj [(''error'', JStr ''Request is already approved'')]), ex_store_approved)"
proof -
  have f: "approvalRequest_findUnique ex_store_approved ''q1'' = Some (ex_request\<lparr>status := approved\<rparr>)"
    by (simp add: approvalRequest_findUnique_def ex_store_approved_def ex_store_def
        ex_request_def)
  have t: "status (ex_request\<lparr>status := approved\<rparr>) \<noteq> pending"
    by simp
  show ?thesis
    using terminal_request_rejected_400 [OF f t, of ex_approver 60 "''r9''"]
    by (simp add: status_str_def)
qed

text \<open>C3 as stated fails: on an approved request the status code of approve is 400, which
  is not the Conflict code 409; the same holds for reject.\<close>

theorem terminal_request_conflict_counterexample:
  "fst (fst (approve ex_store_approved ex_approver ''q1'' 60 ''r9'')) \<noteq> 409
   \<and> fst (fst (reject ex_store_approved ex_approver ''q1'' 60)) \<noteq> 409"
  by (simp add: approve_def reject_def approvalRequest_findUnique_def ex_store_approved_def
      ex_store_def ex_request_def)

section \<open>The rule created by an approval\<close>

lemma special_SyntaxCharacter: "special c = SyntaxCharacter c"
  by (auto simp: special_def SyntaxCharacter_def)

lemma token_of_plain: "\<not> special c \<Longrightarrow> token_of c = TAtom (PatternCharacter c)"
  by (simp add: token_of_def special_SyntaxCharacter) (auto simp: SyntaxCharacter_def)

lemma not_special_backslash: "\<not> special c \<Longrightarrow> c \<noteq> backslash"
  by (auto simp: special_def)

lemma tokens_escapeCommand:
  "tokens (escapeCommand cmd @ rest) = map_option (\<lambda>ts. literal_tokens cmd @ ts) (tokens rest)"
proof (induction cmd)
  case Nil
  show ?case by (simp add: literal_tokens_def option.map_ident)
next
  case (Cons c cs)
  show ?case
  proof (cases "special c")
    case True
    then show ?thesis
      using Cons by (cases "tokens rest") (simp_all add: literal_tokens_def special_SyntaxCharacter)
  next
    case False
    then show ?thesis
      using Cons token_of_plain [OF False] not_special_backslash [OF False]
      by (cases "tokens rest") (simp_all add: literal_tokens_def)
  qed
qed

lemma tokens_approve_pattern:
  "tokens (approve_pattern cmd) = Some (TCaret # literal_tokens cmd @ [TDollar])"
proof -
  have d: "tokens ''$'' = Some [TDollar]"
    by (simp add: token_of_def backslash_def)
  have "tokens (approve_pattern cmd) = map_option (\<lambda>ts. token_of CHR ''^'' # ts) (tokens (escapeCommand cmd @ ''$''))"
    by (cases "tokens (escapeCommand cmd @ ''$'')") (simp_all add: approve_pattern_def backslash_def)
  then show ?thesis
    by (simp add: tokens_escapeCommand d token_of_def backslash_def)
qed

lemma parse_literal_tokens:
  "parse_terms (literal_tokens cmd @ [TDollar]) cur alts
     = Compiled (rev (rev (AssertEnd # rev (literal_terms cmd) @ cur) # alts))"
proof (induction cmd arbitrary: cur)
  case Nil
  show ?case by (simp add: literal_tokens_def literal_terms_def)
next
  case (Cons c cs)
  have "parse_terms (literal_tokens (c # cs) @ [TDollar]) cur alts
          = parse_terms (literal_tokens cs @ [TDollar]) (Single (PatternCharacter c) # cur) alts"
    by (cases cs) (simp_all add: literal_tokens_def)
  then show ?case
    by (simp add: Cons literal_terms_def)
qed

lemma compile_approve_pattern:
  "compile (approve_pattern cmd) = Compiled [AssertStart # literal_terms cmd @ [AssertEnd]]"
  by (simp add: compile_def tokens_approve_pattern parse_literal_tokens)

lemma match_literal_terms:
  "match_terms (literal_terms cmd @ [AssertEnd]) at_start t = (t = cmd)"
proof (induction cmd arbitrary: t at_start)
  case Nil
  show ?case by (simp add: literal_terms_def)
next
  case (Cons c cs)
  then show ?case
    by (cases t) (auto simp: literal_terms_def)
qed

lemma search_anchored_later: "search [AssertStart # ts] False t = False"
  by (induction t) (simp_all add: match_disjunction_def)

lemma test_exact:
  "test [AssertStart # literal_terms cmd @ [AssertEnd]] t = (t = cmd)"
  by (cases t) (auto simp: test_def match_disjunction_def match_literal_terms search_anchored_later)

text \<open>
  C7. When approve succeeds on a pending request with command text c, the rule it adds has
  action AUTO_ACCEPT and the pattern \<open>^\<close>, then c with a backslash in front of each special
  character, then \<open>$\<close>; this pattern compiles, and it tests true on a text t exactly when
  t is c.
\<close>

theorem approve_rule_matches_exactly:
  assumes "approvalRequest_findUnique s rid = Some r"
    and "status r = pending"
    and "\<forall>x \<in> set (regexRules s). pattern x \<noteq> approve_pattern (commandText r)"
  shows "fst (fst (approve s a rid now newId)) = 200
    \<and> regexRules (snd (approve s a rid now newId))
        = regexRules s @ [exact_rule (commandText r) newId now]
    \<and> action (exact_rule (commandText r) newId now) = AUTO_ACCEPT
    \<and> pattern (exact_rule (commandText r) newId now)
        = ''^'' @ escapeCommand (commandText r) @ ''$''
    \<and> compile (pattern (exact_rule (commandText r) newId now))
        = Compiled [AssertStart # literal_terms (commandText r) @ [AssertEnd]]
    \<and> (\<forall>t. test [AssertStart # literal_terms (commandText r) @ [AssertEnd]] t
            = (t = commandText r))
    \<and> (\<forall>t. rule_matches RegExp_fragment t (exact_rule (commandText r) newId now)
            = (t = commandText r))"
proof -
  have p: "pattern (exact_rule (commandText r) newId now) = approve_pattern (commandText r)"
    by (simp add: exact_rule_def)
  have m: "\<forall>t. rule_matches RegExp_fragment t (exact_rule (commandText r) newId now)
            = (t = commandText r)"
    by (simp add: rule_matches_def RegExp_fragment_def p compile_approve_pattern test_exact)
  show ?thesis
    using approve_pending_success [OF assms, of a now newId] m
    by (simp add: p compile_approve_pattern test_exact)
      (simp add: approve_pattern_def exact_rule_def)
qed

theorem approve_rule_matches_exactly_witness:
  "map pattern (regexRules (snd (approve ex_store ex_approver ''q1'' 60 ''r9'')))
     = [''l.'', ''^ls'', ''*ls'', ''rm +-rf'', [CHR ''^''] @ ''cat a'' @ [backslash] @ ''.txt$'']
   \<and> rule_matches RegExp_fragment ''cat a.txt'' (exact_rule ''cat a.txt'' ''r9'' 60)
   \<and> \<not> rule_matches RegExp_fragment ''cat abtxt'' (exact_rule ''cat a.txt'' ''r9'' 60)
   \<and> \<not> rule_matches RegExp_fragment ''cat a.txt '' (exact_rule ''cat a.txt'' ''r9'' 60)"
proof -
  have f: "approvalRequest_findUnique ex_store ''q1'' = Some ex_request"
    by (simp add: approvalRequest_findUnique_def ex_defs)
  have p: "status ex_request = pending"
    by (simp add: ex_request_def)
  have e: "escapeCommand ''cat a.txt'' = ''cat a'' @ [backslash] @ ''.txt''"
    by (simp add: special_def backslash_def)
  have n: "\<forall>x \<in> set (regexRules ex_store). pattern x \<noteq> approve_pattern (commandText ex_request)"
    by (simp add: ex_defs approve_pattern_def e)
  have c: "commandText ex_request = ''cat a.txt''"
    by (simp add: ex_request_def)
  note w = approve_rule_matches_exactly [OF f p n, of ex_approver 60 "''r9''", unfolded c]
  from w have r: "regexRules (snd (approve ex_store ex_approver ''q1'' 60 ''r9''))
        = regexRules ex_store @ [exact_rule ''cat a.txt'' ''r9'' 60]"
    by blast
  from w have m: "\<And>t. rule_matches RegExp_fragment t (exact_rule ''cat a.txt'' ''r9'' 60)
        = (t = ''cat a.txt'')"
    by blast
  have q: "map pattern (regexRules ex_store @ [exact_rule ''cat a.txt'' ''r9'' 60])
     = [''l.'', ''^ls'', ''*ls'', ''rm +-rf'', [CHR ''^''] @ ''cat a'' @ [backslash] @ ''.txt$'']"
    by (simp add: ex_defs exact_rule_def approve_pattern_def special_def backslash_def)
  show ?thesis
    unfolding r q m by simp
qed

section \<open>Approving a request whose pattern is already a rule\<close>

text \<open>
  C10. When the request is pending and some rule already has the pattern that approve
  builds from the command text, approve answers 409 with the error "A regex rule for this
  command already exists" and the store is unchanged: the request is still pending and no
  rule was added, the status update of the transaction being rolled back with the failed
  rule creation.
\<close>

theorem approve_duplicate_pattern_conflict:
  assumes "approvalRequest_findUnique s rid = Some r"
    and "status r = pending"
    and "\<exists>x \<in> set (regexRules s). pattern x = approve_pattern (commandText r)"
  shows "approve s a rid now newId =
           ((409, JObj [(''error'', JStr ''A regex rule for this command already exists'')]), s)"
proof -
  let ?upd = "approvalRequest_update rid
                (\<lambda>r. r\<lparr>status := approved, reviewedAt := Some now,
                        reviewedBy := Some (userId a)\<rparr>) now"
  let ?create = "regexRule_create (approve_pattern (commandText r)) AUTO_ACCEPT
                  (Some (commandText r)) newId now"
  obtain r' s1 where u: "?upd s = Inr (r', s1)"
    using assms(1) by (simp add: approvalRequest_update_def Let_def)
  have "regexRules s1 = regexRules s"
    using u by (rule approvalRequest_update_regexRules)
  then have c: "?create s1 = Inl (UniqueConstraintFailed ''pattern'')"
    using assms(3) by (simp add: regexRule_create_def)
  have "transaction2 ?upd ?create s = Inl (UniqueConstraintFailed ''pattern'')"
    by (simp add: transaction2_def u c)
  then show ?thesis
    using assms(1,2) unique_constraint_message [of "''pattern''"]
    by (simp add: approve_def Let_def)
qed

theorem approve_duplicate_pattern_conflict_witness:
  "approve ex_store_taken ex_approver ''q1'' 60 ''r9'' =
     ((409, JObj [(''error'', JStr ''A regex rule for this command already exists'')]),
      ex_store_taken)
   \<and> map status (approvalRequests ex_store_taken) = [pending]
   \<and> length (regexRules ex_store_taken) = 1"
proof -
  have f: "approvalRequest_findUnique ex_store_taken ''q1'' = Some ex_request"
    by (simp add: approvalRequest_findUnique_def ex_store_taken_def ex_store_def ex_request_def)
  have p: "status ex_request = pending"
    by (simp add: ex_request_def)
  have d: "\<exists>x \<in> set (regexRules ex_store_taken). pattern x = approve_pattern (commandText ex_request)"
    by (simp add: ex_store_taken_def ex_request_def)
  show ?thesis
    using approve_duplicate_pattern_conflict [OF f p d, of ex_approver 60 "''r9''"]
    by (simp add: ex_store_taken_def ex_store_def ex_request_def)
qed

end
